theory Spec2Isabelle
  imports Main "HOL-Library.AList" "HOL-Library.Sublist"
begin

section \<open>JavaScript values\<close>

text \<open>
  A thrown value is represented by the text that the template literal \<^verbatim>\<open>${error}\<close>
  renders for it; \<open>Inl e\<close> of a result \<open>js_error + 'a\<close> is a throw (a rejected promise).
\<close>

type_synonym js_error = string

text \<open>Objects live in a store and are held by reference, as in JavaScript.\<close>

type_synonym ref = nat

datatype js_value = JUndefined | JString string | JObject ref

text \<open>The object type \<^verbatim>\<open>{ [path: string]: string }\<close>: its own keys in insertion order.\<close>

type_synonym files_obj = "(string \<times> string) list"

text \<open>Truthiness of a value of type \<^verbatim>\<open>string | undefined\<close>.\<close>

definition truthy :: "string option \<Rightarrow> bool" where
  "truthy v = (case v of None \<Rightarrow> False | Some s \<Rightarrow> s \<noteq> [])"

text \<open>\<^verbatim>\<open>String.prototype.includes\<close>: the argument occurs as a contiguous substring.\<close>

fun str_includes :: "string \<Rightarrow> string \<Rightarrow> bool" where
  "str_includes [] sub = (sub = [])"
| "str_includes (c # cs) sub = (prefix sub (c # cs) \<or> str_includes cs sub)"

section \<open>Messages of a turn\<close>

text \<open>The shape \<^verbatim>\<open>{ path, content }\<close> of a file to write and of a file read.\<close>

record file_entry =
  path :: string
  content :: string

text \<open>
  A tool invocation that passed its parameter schema: \<^verbatim>\<open>{ command: string }\<close>,
  \<^verbatim>\<open>{ files: { path, content }[] }\<close> or \<^verbatim>\<open>{ files: string[] }\<close>. No other shape
  reaches a handler.
\<close>

datatype tool_call =
    Terminal string
  | CreateOrUpdateFiles "file_entry list"
  | ReadFiles "string list"

text \<open>
  Modelled from the spec: the message types come from the agent library, which is not
  part of the sources. Section 3: the result of a turn holds zero or more tool
  invocations and the text the assistant wrote; section 7: what a tool returned, or the
  error its handler threw, is a value shown to the model.
\<close>

datatype role = System | User | Assistant

datatype message =
    TextMessage role string
  | ToolCallMessage "tool_call list"
  | ToolResultMessage "js_error + js_value"

section \<open>State of one run\<close>

text \<open>
  \<^verbatim>\<open>interface AgentState { summary: string; files: { [path: string]: string } }\<close>.
  Both fields are \<^verbatim>\<open>undefined\<close> until first assigned; \<open>files\<close> holds a reference.
\<close>

record AgentState =
  summary :: "string option"
  files :: "ref option"

type_synonym run_id = string

text \<open>
  Everything a run can read or change: the outside world (sandbox, database, model), the
  step records of the workflow engine, the object store, \<^verbatim>\<open>network.state.data\<close> and
  the conversation so far.
\<close>

record 'w sys =
  world :: 'w
  steps :: "run_id \<times> string \<Rightarrow> (js_error + js_value) option"
  objs :: "ref \<Rightarrow> files_obj"
  next_ref :: ref
  data :: AgentState
  history :: "message list"

type_synonym ('a, 'w) action = "'w sys \<Rightarrow> (js_error + 'a) \<times> 'w sys"

section \<open>Durable step executor\<close>

text \<open>
  Modelled from the spec: \<^verbatim>\<open>step.run\<close> belongs to the workflow engine, which is not
  part of the sources. Section 4.1: if a StepRecord exists for (runIdentity, stepName),
  return its cached result without invoking the operation; otherwise invoke the operation
  exactly once, capture success or failure, store a StepRecord, and return accordingly.
  That a step name stands for one logical operation within a run is a precondition there.
\<close>

definition step_run :: "run_id \<Rightarrow> string \<Rightarrow> (js_value, 'w) action \<Rightarrow> (js_value, 'w) action" where
  "step_run rid stepName operation s =
     (case steps s (rid, stepName) of
        Some r \<Rightarrow> (r, s)
      | None \<Rightarrow>
          (case operation s of
             (r, s') \<Rightarrow> (r, s'\<lparr>steps := (steps s')((rid, stepName) \<mapsto> r)\<rparr>)))"

section \<open>The outside world\<close>

text \<open>
  The sandbox service, the database and the language model are outside the program. Each
  is a parameter: a function of the state of the world \<open>'w\<close> that returns its outcome and
  the world after the call. \<open>'h\<close> is the type of a connected sandbox handle.
\<close>

text \<open>One call of the \<^verbatim>\<open>onStdout\<close> or \<^verbatim>\<open>onStderr\<close> callback while a command runs.\<close>

datatype stream_event = OnStdout string | OnStderr string

datatype message_role = ASSISTANT | USER

datatype message_type = ERROR | RESULT

record fragment =
  frag_sandboxUrl :: js_value
  frag_files :: "files_obj option"
  frag_title :: string

record message_data =
  msg_content :: "string option"
  msg_role :: message_role
  msg_type :: message_type
  msg_fragment :: "fragment option"

record ('w, 'h) env =
  Sandbox_create :: "string \<Rightarrow> 'w \<Rightarrow> (js_error + js_value) \<times> 'w"
  getSandbox :: "js_value \<Rightarrow> 'w \<Rightarrow> (js_error + 'h) \<times> 'w"
  commands_run :: "'h \<Rightarrow> string \<Rightarrow> 'w \<Rightarrow> (stream_event list \<times> (js_error + string)) \<times> 'w"
  files_write :: "'h \<Rightarrow> string \<Rightarrow> string \<Rightarrow> 'w \<Rightarrow> (js_error + unit) \<times> 'w"
  files_read :: "'h \<Rightarrow> string \<Rightarrow> 'w \<Rightarrow> (js_error + string) \<times> 'w"
  getHost :: "'h \<Rightarrow> nat \<Rightarrow> string"
  message_create :: "message_data \<Rightarrow> 'w \<Rightarrow> (js_error + js_value) \<times> 'w"
  infer :: "message list \<Rightarrow> 'w \<Rightarrow> message list \<times> 'w"

text \<open>
  \<open>Sandbox_create\<close> returns the \<^verbatim>\<open>sandboxId\<close> of the sandbox it made; \<open>getSandbox\<close>
  (imported from \<^verbatim>\<open>./utils\<close>) connects to the sandbox of an id; \<open>commands_run\<close> returns
  the callback calls it made in order and then either throws or returns
  \<^verbatim>\<open>result.stdout\<close>; \<open>getHost\<close> computes a host name and has no effect; \<open>message_create\<close>
  is \<^verbatim>\<open>prisma.message.create\<close>; \<open>infer\<close> is one request to the model: the conversation
  so far goes in, the messages of the turn come out.
\<close>

section \<open>Terminal tool\<close>

record buffers =
  stdout :: string
  stderr :: string

fun emit :: "buffers \<Rightarrow> stream_event \<Rightarrow> buffers" where
  "emit b (OnStdout d) = b\<lparr>stdout := stdout b @ d\<rparr>"
| "emit b (OnStderr d) = b\<lparr>stderr := stderr b @ d\<rparr>"

text \<open>All the data handed to \<^verbatim>\<open>onStdout\<close>, and to \<^verbatim>\<open>onStderr\<close>, in the order it came.\<close>

fun streamed_stdout :: "stream_event list \<Rightarrow> string" where
  "streamed_stdout [] = []"
| "streamed_stdout (OnStdout d # es) = d @ streamed_stdout es"
| "streamed_stdout (OnStderr d # es) = streamed_stdout es"

fun streamed_stderr :: "stream_event list \<Rightarrow> string" where
  "streamed_stderr [] = []"
| "streamed_stderr (OnStdout d # es) = streamed_stderr es"
| "streamed_stderr (OnStderr d # es) = d @ streamed_stderr es"

text \<open>
  \<^verbatim>\<open>`Command failed: ${error} \nstdout: ${buffers.stdout} \nstderr: ${buffers.stderr}`\<close>
\<close>

definition command_failed :: "js_error \<Rightarrow> buffers \<Rightarrow> string" where
  "command_failed error b =
     ''Command failed: '' @ error @ '' '' @ [CHR 0x0A] @ ''stdout: '' @ stdout b @
     '' '' @ [CHR 0x0A] @ ''stderr: '' @ stderr b"

text \<open>
  The \<^verbatim>\<open>try\<close> block of the operation handed to \<^verbatim>\<open>step.run("terminal", ...)\<close>: the
  callback calls made, and how the block ended (a throw of \<^verbatim>\<open>getSandbox\<close> or of
  \<^verbatim>\<open>sandbox.commands.run\<close>, or \<^verbatim>\<open>result.stdout\<close>).
\<close>

definition terminal_try ::
  "('w, 'h) env \<Rightarrow> js_value \<Rightarrow> string \<Rightarrow> 'w \<Rightarrow> (stream_event list \<times> (js_error + string)) \<times> 'w"
  where
  "terminal_try env sandboxId command w =
     (case getSandbox env sandboxId w of
        (Inl error, w1) \<Rightarrow> (([], Inl error), w1)
      | (Inr sandbox, w1) \<Rightarrow> commands_run env sandbox command w1)"

text \<open>
  The whole operation: the buffers start empty, the callbacks fill them, and the
  \<^verbatim>\<open>catch\<close> block turns a throw into the text it returns; \<^verbatim>\<open>console.error\<close> only logs.
\<close>

definition terminal_op :: "('w, 'h) env \<Rightarrow> js_value \<Rightarrow> string \<Rightarrow> (js_value, 'w) action" where
  "terminal_op env sandboxId command s =
     (case terminal_try env sandboxId command (world s) of
        ((events, outcome), w) \<Rightarrow>
          (let b = foldl emit \<lparr>stdout = [], stderr = []\<rparr> events in
           case outcome of
             Inl error \<Rightarrow> (Inr (JString (command_failed error b)), s\<lparr>world := w\<rparr>)
           | Inr result_stdout \<Rightarrow> (Inr (JString result_stdout), s\<lparr>world := w\<rparr>)))"

definition terminal_handler ::
  "('w, 'h) env \<Rightarrow> run_id \<Rightarrow> js_value \<Rightarrow> string \<Rightarrow> (js_value, 'w) action" where
  "terminal_handler env step sandboxId command =
     step_run step ''terminal'' (terminal_op env sandboxId command)"

section \<open>createOrUpdateFiles tool\<close>

text \<open>\<^verbatim>\<open>{}\<close>: a new empty object in the store.\<close>

definition new_object :: "'w sys \<Rightarrow> ref \<times> 'w sys" where
  "new_object s =
     (next_ref s, s\<lparr>objs := (objs s)(next_ref s := []), next_ref := Suc (next_ref s)\<rparr>)"

text \<open>
  The own keys of an object are listed with the array indices first, in ascending
  order, and the other keys after them, in the order they were created. An array index
  is the canonical decimal text of a number below \<open>2^32 - 1\<close>.
\<close>

definition is_digit :: "char \<Rightarrow> bool" where
  "is_digit c = (48 \<le> (of_char c :: nat) \<and> (of_char c :: nat) \<le> 57)"

definition decimal_value :: "string \<Rightarrow> nat" where
  "decimal_value ds = foldl (\<lambda>n c. 10 * n + (of_char c - 48)) 0 ds"

definition array_index :: "string \<Rightarrow> nat option" where
  "array_index key =
     (case key of
        [] \<Rightarrow> None
      | c # cs \<Rightarrow>
          if list_all is_digit key \<and> (c \<noteq> CHR ''0'' \<or> cs = []) \<and>
             decimal_value key < 4294967295
          then Some (decimal_value key) else None)"

definition index_below :: "nat \<Rightarrow> string \<times> string \<Rightarrow> bool" where
  "index_below n e = (case array_index (fst e) of None \<Rightarrow> False | Some m \<Rightarrow> m < n)"

text \<open>A new own property: an array index goes to its place among the indices.\<close>

definition add_property :: "string \<Rightarrow> string \<Rightarrow> files_obj \<Rightarrow> files_obj" where
  "add_property key val obj =
     (case array_index key of
        None \<Rightarrow> obj @ [(key, val)]
      | Some n \<Rightarrow> takeWhile (index_below n) obj @ (key, val) # dropWhile (index_below n) obj)"

text \<open>
  \<^verbatim>\<open>obj[key] = value\<close> for a string value, on an object made by \<^verbatim>\<open>{}\<close>: an own property
  keeps its place and gets the value, a new one is added; the key \<^verbatim>\<open>__proto__\<close> reaches
  the inherited setter, which ignores a value that is not an object.
\<close>

definition assign_property :: "string \<Rightarrow> string \<Rightarrow> files_obj \<Rightarrow> files_obj" where
  "assign_property key val obj =
     (if key = ''__proto__'' then obj
      else case map_of obj key of
             Some old \<Rightarrow> AList.update key val obj
           | None \<Rightarrow> add_property key val obj)"

text \<open>The same on the object behind a reference.\<close>

definition set_property :: "ref \<Rightarrow> string \<Rightarrow> string \<Rightarrow> 'w sys \<Rightarrow> 'w sys" where
  "set_property r key val s = s\<lparr>objs := (objs s)(r := assign_property key val (objs s r))\<rparr>"

text \<open>The \<^verbatim>\<open>for (const file of files)\<close> loop: write to the sandbox, then record in the object.\<close>

fun write_each ::
  "('w, 'h) env \<Rightarrow> 'h \<Rightarrow> ref \<Rightarrow> file_entry list \<Rightarrow> (unit, 'w) action" where
  "write_each env sandbox updatedFiles [] s = (Inr (), s)"
| "write_each env sandbox updatedFiles (file # rest) s =
     (case files_write env sandbox (path file) (content file) (world s) of
        (Inl error, w) \<Rightarrow> (Inl error, s\<lparr>world := w\<rparr>)
      | (Inr _, w) \<Rightarrow>
          write_each env sandbox updatedFiles rest
            (set_property updatedFiles (path file) (content file) (s\<lparr>world := w\<rparr>)))"

text \<open>
  The operation handed to \<^verbatim>\<open>step.run("createOrUpdateFiles", ...)\<close>.
  \<^verbatim>\<open>network.state.data.files || {}\<close> is the object of the state itself when there is
  one (an object is truthy, also when empty), and a new object otherwise.
\<close>

definition createOrUpdateFiles_op ::
  "('w, 'h) env \<Rightarrow> js_value \<Rightarrow> file_entry list \<Rightarrow> (js_value, 'w) action" where
  "createOrUpdateFiles_op env sandboxId fs s =
     (case (case files (data s) of Some r \<Rightarrow> (r, s) | None \<Rightarrow> new_object s) of
        (updatedFiles, s0) \<Rightarrow>
          (case getSandbox env sandboxId (world s0) of
             (Inl error, w) \<Rightarrow> (Inr (JString (''Error: '' @ error)), s0\<lparr>world := w\<rparr>)
           | (Inr sandbox, w) \<Rightarrow>
               (case write_each env sandbox updatedFiles fs (s0\<lparr>world := w\<rparr>) of
                  (Inl error, s1) \<Rightarrow> (Inr (JString (''Error: '' @ error)), s1)
                | (Inr _, s1) \<Rightarrow> (Inr (JObject updatedFiles), s1))))"

text \<open>
  The handler: \<^verbatim>\<open>step?.run\<close> gives \<^verbatim>\<open>undefined\<close> without step tools; the state is
  assigned only when \<^verbatim>\<open>typeof newFiles === "object"\<close>; the handler returns nothing.
\<close>

definition createOrUpdateFiles_handler ::
  "('w, 'h) env \<Rightarrow> js_value \<Rightarrow> file_entry list \<Rightarrow> run_id option \<Rightarrow> (js_value, 'w) action" where
  "createOrUpdateFiles_handler env sandboxId fs step s =
     (case step of
        None \<Rightarrow> (Inr JUndefined, s)
      | Some rid \<Rightarrow>
          (case step_run rid ''createOrUpdateFiles'' (createOrUpdateFiles_op env sandboxId fs) s of
             (Inl error, s1) \<Rightarrow> (Inl error, s1)
           | (Inr newFiles, s1) \<Rightarrow>
               (Inr JUndefined,
                case newFiles of
                  JObject r \<Rightarrow> s1\<lparr>data := (data s1)\<lparr>files := Some r\<rparr>\<rparr>
                | _ \<Rightarrow> s1)))"

section \<open>readFiles tool\<close>

text \<open>
  \<^verbatim>\<open>JSON.stringify\<close> on an array of \<^verbatim>\<open>{ path, content }\<close> objects, following the
  language definition: a string is quoted, with the quote, the backslash and the control
  characters below U+0020 escaped; the properties of an object are written in insertion
  order; no white space is added.
\<close>

definition hex_digit :: "nat \<Rightarrow> char" where
  "hex_digit n = ''0123456789abcdef'' ! (n mod 16)"

definition json_escape :: "char \<Rightarrow> string" where
  "json_escape c =
     (if c = CHR 0x08 then [CHR 0x5C, CHR ''b'']
      else if c = CHR 0x09 then [CHR 0x5C, CHR ''t'']
      else if c = CHR 0x0A then [CHR 0x5C, CHR ''n'']
      else if c = CHR 0x0C then [CHR 0x5C, CHR ''f'']
      else if c = CHR 0x0D then [CHR 0x5C, CHR ''r'']
      else if c = CHR 0x22 then [CHR 0x5C, CHR 0x22]
      else if c = CHR 0x5C then [CHR 0x5C, CHR 0x5C]
      else if (of_char c :: nat) < 32 then
        [CHR 0x5C, CHR ''u'', CHR ''0'', CHR ''0'',
         hex_digit (of_char c div 16), hex_digit (of_char c)]
      else [c])"

definition json_quote :: "string \<Rightarrow> string" where
  "json_quote str = [CHR 0x22] @ concat (map json_escape str) @ [CHR 0x22]"

definition json_entry :: "file_entry \<Rightarrow> string" where
  "json_entry e =
     ''{'' @ json_quote ''path'' @ '':'' @ json_quote (path e) @ '','' @
     json_quote ''content'' @ '':'' @ json_quote (content e) @ ''}''"

fun json_join :: "string list \<Rightarrow> string" where
  "json_join [] = []"
| "json_join [x] = x"
| "json_join (x # y # ys) = x @ '','' @ json_join (y # ys)"

definition JSON_stringify :: "file_entry list \<Rightarrow> string" where
  "JSON_stringify contents = ''['' @ json_join (map json_entry contents) @ '']''"

text \<open>The \<^verbatim>\<open>for (const file of files)\<close> loop: read, then push onto \<^verbatim>\<open>contents\<close>.\<close>

fun read_each ::
  "('w, 'h) env \<Rightarrow> 'h \<Rightarrow> file_entry list \<Rightarrow> string list \<Rightarrow> 'w \<Rightarrow> (js_error + file_entry list) \<times> 'w"
  where
  "read_each env sandbox contents [] w = (Inr contents, w)"
| "read_each env sandbox contents (file # rest) w =
     (case files_read env sandbox file w of
        (Inl error, w') \<Rightarrow> (Inl error, w')
      | (Inr c, w') \<Rightarrow>
          read_each env sandbox (contents @ [\<lparr>path = file, content = c\<rparr>]) rest w')"

text \<open>The operation handed to \<^verbatim>\<open>step.run("readFiles", ...)\<close>.\<close>

definition readFiles_op :: "('w, 'h) env \<Rightarrow> js_value \<Rightarrow> string list \<Rightarrow> (js_value, 'w) action" where
  "readFiles_op env sandboxId fs s =
     (case getSandbox env sandboxId (world s) of
        (Inl error, w) \<Rightarrow> (Inr (JString (''Error: '' @ error)), s\<lparr>world := w\<rparr>)
      | (Inr sandbox, w) \<Rightarrow>
          (case read_each env sandbox [] fs w of
             (Inl error, w') \<Rightarrow> (Inr (JString (''Error: '' @ error)), s\<lparr>world := w'\<rparr>)
           | (Inr contents, w') \<Rightarrow> (Inr (JString (JSON_stringify contents)), s\<lparr>world := w'\<rparr>)))"

definition readFiles_handler ::
  "('w, 'h) env \<Rightarrow> js_value \<Rightarrow> string list \<Rightarrow> run_id option \<Rightarrow> (js_value, 'w) action" where
  "readFiles_handler env sandboxId fs step s =
     (case step of
        None \<Rightarrow> (Inr JUndefined, s)
      | Some rid \<Rightarrow> step_run rid ''readFiles'' (readFiles_op env sandboxId fs) s)"

section \<open>Completion detector\<close>

text \<open>
  Modelled from the spec: \<^verbatim>\<open>lastAssistantTextMessageContent\<close> is imported from
  \<^verbatim>\<open>./utils\<close>, which is not part of the sources. Section 4.4: the turn's final
  assistant-authored text (not tool-call content); \<^verbatim>\<open>undefined\<close> when there is none.
\<close>

fun lastAssistantTextMessageContent :: "message list \<Rightarrow> string option" where
  "lastAssistantTextMessageContent [] = None"
| "lastAssistantTextMessageContent (m # ms) =
     (case lastAssistantTextMessageContent ms of
        Some t \<Rightarrow> Some t
      | None \<Rightarrow> (case m of TextMessage Assistant t \<Rightarrow> Some t | _ \<Rightarrow> None))"

definition marker :: string where
  "marker = ''<task_summary>''"

text \<open>
  The \<^verbatim>\<open>onResponse\<close> hook. It hands the result back as it got it; what it changes is
  the state of the network, when there is a network.
\<close>

definition onResponse :: "message list \<Rightarrow> 'w sys option \<Rightarrow> 'w sys option" where
  "onResponse result network =
     (case (lastAssistantTextMessageContent result, network) of
        (Some lastAssistantMessageText, Some n) \<Rightarrow>
          (if lastAssistantMessageText \<noteq> [] then
             (if str_includes lastAssistantMessageText marker
              then Some (n\<lparr>data := (data n)\<lparr>summary := Some lastAssistantMessageText\<rparr>\<rparr>)
              else Some n)
           else Some n)
      | (_, _) \<Rightarrow> network)"

section \<open>Network: router and loop\<close>

text \<open>The agents the router can choose from: the network is configured with one.\<close>

datatype agent = CodeAgent

definition maxIter :: nat where
  "maxIter = 15"

text \<open>The \<^verbatim>\<open>router\<close> function: no agent once a summary is present.\<close>

definition router :: "'w sys \<Rightarrow> agent option" where
  "router network = (if truthy (summary (data network)) then None else Some CodeAgent)"

text \<open>
  Modelled from the spec: the agent and network classes come from the agent library,
  which is not part of the sources. Section 4.3: a validated tool invocation is
  dispatched to the handler of its tool, which gets the step tools of the run.
\<close>

fun invoke_tool ::
  "('w, 'h) env \<Rightarrow> run_id \<Rightarrow> js_value \<Rightarrow> tool_call \<Rightarrow> (js_value, 'w) action" where
  "invoke_tool env step sandboxId (Terminal command) =
     terminal_handler env step sandboxId command"
| "invoke_tool env step sandboxId (CreateOrUpdateFiles fs) =
     createOrUpdateFiles_handler env sandboxId fs (Some step)"
| "invoke_tool env step sandboxId (ReadFiles fs) =
     readFiles_handler env sandboxId fs (Some step)"

fun tool_calls :: "message list \<Rightarrow> tool_call list" where
  "tool_calls [] = []"
| "tool_calls (ToolCallMessage cs # ms) = cs @ tool_calls ms"
| "tool_calls (m # ms) = tool_calls ms"

text \<open>
  Modelled from the spec: a turn of the agent, which the agent library runs. Sections 2,
  5 and 7: a turn is one request to the model; the tools it asks for run one after the
  other, each result (or the error a handler threw) becoming a value shown to the model;
  then the completion detector runs.
\<close>

fun invoke_tools ::
  "('w, 'h) env \<Rightarrow> run_id \<Rightarrow> js_value \<Rightarrow> tool_call list \<Rightarrow> 'w sys \<Rightarrow> message list \<times> 'w sys"
  where
  "invoke_tools env step sandboxId [] s = ([], s)"
| "invoke_tools env step sandboxId (c # cs) s =
     (case invoke_tool env step sandboxId c s of
        (r, s1) \<Rightarrow>
          (case invoke_tools env step sandboxId cs s1 of
             (rs, s2) \<Rightarrow> (ToolResultMessage r # rs, s2)))"

definition agent_turn :: "('w, 'h) env \<Rightarrow> run_id \<Rightarrow> js_value \<Rightarrow> 'w sys \<Rightarrow> 'w sys" where
  "agent_turn env step sandboxId s =
     (case infer env (history s) (world s) of
        (result, w) \<Rightarrow>
          (case invoke_tools env step sandboxId (tool_calls result) (s\<lparr>world := w\<rparr>) of
             (tool_results, s1) \<Rightarrow>
               (case onResponse result (Some s1) of
                  None \<Rightarrow> s1\<lparr>history := history s1 @ result @ tool_results\<rparr>
                | Some s2 \<Rightarrow> s2\<lparr>history := history s2 @ result @ tool_results\<rparr>)))"

text \<open>
  The invocation of the hook in the turn that starts from \<open>s\<close>: the result it is handed
  and the state of the network it finds, after the tools of the turn have run.
\<close>

definition hook_input ::
  "('w, 'h) env \<Rightarrow> run_id \<Rightarrow> js_value \<Rightarrow> 'w sys \<Rightarrow> message list \<times> 'w sys" where
  "hook_input env step sandboxId s =
     (case infer env (history s) (world s) of
        (result, w) \<Rightarrow>
          (result, snd (invoke_tools env step sandboxId (tool_calls result) (s\<lparr>world := w\<rparr>))))"

text \<open>
  Modelled from the spec: the loop of \<^verbatim>\<open>network.run\<close>, which the agent library runs.
  Section 4.5: while RUNNING the single agent is invoked; after each turn, and after the
  completion detector has run for it, the network stops when the router returns no
  agent, and it is forced to stop when the turn count reaches the cap. The function
  returns the state after each turn it ran, in order.
\<close>

function network_loop ::
  "('w, 'h) env \<Rightarrow> run_id \<Rightarrow> js_value \<Rightarrow> nat \<Rightarrow> 'w sys \<Rightarrow> 'w sys list" where
  "network_loop env step sandboxId turns s =
     (if maxIter \<le> turns then []
      else
        (let s' = agent_turn env step sandboxId s in
         case router s' of
           None \<Rightarrow> [s']
         | Some CodeAgent \<Rightarrow> s' # network_loop env step sandboxId (Suc turns) s'))"
  by pat_completeness auto
termination
  by (relation "measure (\<lambda>(env, step, sandboxId, turns, s). maxIter - turns)") auto

declare network_loop.simps [simp del]

text \<open>
  Modelled from the spec: \<^verbatim>\<open>createNetwork\<close> followed by \<^verbatim>\<open>network.run(event.data.value)\<close>,
  both of the agent library. Sections 3 and 6: a new agent state with nothing assigned,
  the user's text as the first message, then the loop; the result is the network in its
  last state.
\<close>

definition network_start :: "string \<Rightarrow> 'w sys \<Rightarrow> 'w sys" where
  "network_start input s =
     s\<lparr>data := \<lparr>summary = None, files = None\<rparr>, history := [TextMessage User input]\<rparr>"

definition network_run ::
  "('w, 'h) env \<Rightarrow> run_id \<Rightarrow> js_value \<Rightarrow> string \<Rightarrow> 'w sys \<Rightarrow> 'w sys" where
  "network_run env step sandboxId input s =
     last (network_start input s # network_loop env step sandboxId 0 (network_start input s))"

section \<open>The function: sandbox, network, result\<close>

text \<open>The operation of the step \<^verbatim>\<open>"get-sandbox-id"\<close>.\<close>

definition get_sandbox_id_op :: "('w, 'h) env \<Rightarrow> (js_value, 'w) action" where
  "get_sandbox_id_op env s =
     (case Sandbox_create env ''vibe-nextjs-ali'' (world s) of
        (r, w) \<Rightarrow> (r, s\<lparr>world := w\<rparr>))"

text \<open>\<^verbatim>\<open>result.state.data.files || {}\<close>, read through the reference.\<close>

definition files_or_empty :: "'w sys \<Rightarrow> files_obj" where
  "files_or_empty result = (case files (data result) of None \<Rightarrow> [] | Some r \<Rightarrow> objs result r)"

text \<open>
  \<^verbatim>\<open>!result.state.data.summary || Object.keys(result.state.data.files || {}).length === 0\<close>
\<close>

definition isError :: "'w sys \<Rightarrow> bool" where
  "isError result =
     (\<not> truthy (summary (data result)) \<or> length (map fst (files_or_empty result)) = 0)"

text \<open>The operation of the step \<^verbatim>\<open>"get-sandbox-url"\<close>.\<close>

definition get_sandbox_url_op :: "('w, 'h) env \<Rightarrow> js_value \<Rightarrow> (js_value, 'w) action" where
  "get_sandbox_url_op env sandboxId s =
     (case getSandbox env sandboxId (world s) of
        (Inl error, w) \<Rightarrow> (Inl error, s\<lparr>world := w\<rparr>)
      | (Inr sandbox, w) \<Rightarrow>
          (Inr (JString (''https://'' @ getHost env sandbox 3000)), s\<lparr>world := w\<rparr>))"

text \<open>The files of the state as they are written out: the object's content, if any.\<close>

definition files_value :: "'w sys \<Rightarrow> files_obj option" where
  "files_value result = map_option (objs result) (files (data result))"

definition error_message :: message_data where
  "error_message =
     \<lparr>msg_content = Some ''Something went wrong. Please try again.'',
      msg_role = ASSISTANT, msg_type = ERROR, msg_fragment = None\<rparr>"

definition result_message :: "js_value \<Rightarrow> 'w sys \<Rightarrow> message_data" where
  "result_message sandboxUrl result =
     \<lparr>msg_content = summary (data result),
      msg_role = ASSISTANT, msg_type = RESULT,
      msg_fragment = Some
        \<lparr>frag_sandboxUrl = sandboxUrl, frag_files = files_value result,
         frag_title = ''Fragment''\<rparr>\<rparr>"

text \<open>The operation of the step \<^verbatim>\<open>"save-result"\<close>.\<close>

definition save_result_op ::
  "('w, 'h) env \<Rightarrow> bool \<Rightarrow> js_value \<Rightarrow> (js_value, 'w) action" where
  "save_result_op env isErr sandboxUrl s =
     (case message_create env
             (if isErr then error_message else result_message sandboxUrl s) (world s) of
        (r, w) \<Rightarrow> (r, s\<lparr>world := w\<rparr>))"

text \<open>The value the function returns.\<close>

record function_result =
  ret_url :: js_value
  ret_title :: string
  ret_files :: "files_obj option"
  ret_summary :: "string option"

text \<open>Steps 5 to 7 of the function and its return, from the network's last state.\<close>

definition finalizer ::
  "('w, 'h) env \<Rightarrow> run_id \<Rightarrow> js_value \<Rightarrow> (function_result, 'w) action" where
  "finalizer env step sandboxId result =
     (let isErr = isError result in
      case step_run step ''get-sandbox-url'' (get_sandbox_url_op env sandboxId) result of
        (Inl error, s1) \<Rightarrow> (Inl error, s1)
      | (Inr sandboxUrl, s1) \<Rightarrow>
          (case step_run step ''save-result'' (save_result_op env isErr sandboxUrl) s1 of
             (Inl error, s2) \<Rightarrow> (Inl error, s2)
           | (Inr _, s2) \<Rightarrow>
               (Inr \<lparr>ret_url = sandboxUrl, ret_title = ''Fragment'',
                     ret_files = files_value s2, ret_summary = summary (data s2)\<rparr>, s2)))"

text \<open>\<^verbatim>\<open>codeAgentFunction\<close>, for the event value \<open>input\<close> and the step tools of run \<open>step\<close>.\<close>

definition codeAgentFunction ::
  "('w, 'h) env \<Rightarrow> run_id \<Rightarrow> string \<Rightarrow> (function_result, 'w) action" where
  "codeAgentFunction env step input s =
     (case step_run step ''get-sandbox-id'' (get_sandbox_id_op env) s of
        (Inl error, s1) \<Rightarrow> (Inl error, s1)
      | (Inr sandboxId, s1) \<Rightarrow>
          finalizer env step sandboxId (network_run env step sandboxId input s1))"

section \<open>What a run keeps true of its files\<close>

text \<open>
  The files object of the state, when there is one, is the object that the step
  \<^verbatim>\<open>createOrUpdateFiles\<close> of the run has recorded as its result.
\<close>

definition files_recorded :: "run_id \<Rightarrow> 'w sys \<Rightarrow> bool" where
  "files_recorded step s =
     (case files (data s) of
        None \<Rightarrow> True
      | Some r \<Rightarrow> steps s (step, ''createOrUpdateFiles'') = Some (Inr (JObject r)))"

section \<open>A stub world for concrete runs\<close>

text \<open>
  A small world to run the definitions in. Its state counts the sandboxes created and
  keeps the messages saved; the one sandbox is \<^verbatim>\<open>sbx\<close>; the command \<^verbatim>\<open>ls\<close> succeeds and
  every other command fails after some output; the path \<^verbatim>\<open>bad.txt\<close> cannot be written;
  only \<^verbatim>\<open>a.txt\<close> can be read; the model answers every request with a plain text and no
  tool call.
\<close>

record stub_world =
  created :: nat
  saved :: "message_data list"

definition stub_env :: "(stub_world, unit) env" where
  "stub_env =
     \<lparr>Sandbox_create = (\<lambda>template w. (Inr (JString ''sbx''), w\<lparr>created := Suc (created w)\<rparr>)),
      getSandbox = (\<lambda>sandboxId w.
        (if sandboxId = JString ''sbx'' then Inr () else Inl ''Error: no sandbox'', w)),
      commands_run = (\<lambda>sandbox command w.
        (if command = ''ls''
         then ([OnStdout ''a.txt'', OnStderr ''warning''], Inr ''a.txt'')
         else ([OnStdout ''partial'', OnStderr ''not found''], Inl ''Error: exit status 127''),
         w)),
      files_write = (\<lambda>sandbox p c w.
        (if p = ''bad.txt'' then Inl ''Error: read-only'' else Inr (), w)),
      files_read = (\<lambda>sandbox p w.
        (if p = ''a.txt'' then Inr ''hello'' else Inl ''Error: no such file'', w)),
      getHost = (\<lambda>sandbox port. ''3000-sbx.e2b.app''),
      message_create = (\<lambda>d w. (Inr (JString ''message-1''), w\<lparr>saved := saved w @ [d]\<rparr>)),
      infer = (\<lambda>h w. ([TextMessage Assistant ''working''], w))\<rparr>"

text \<open>The state in which a run starts: no step recorded, nothing in \<^verbatim>\<open>network.state.data\<close>.\<close>

definition stub_sys :: "stub_world sys" where
  "stub_sys =
     \<lparr>world = \<lparr>created = 0, saved = []\<rparr>, steps = Map.empty, objs = (\<lambda>r. []), next_ref = 0,
      data = \<lparr>summary = None, files = None\<rparr>, history = []\<rparr>"

text \<open>The same state once \<^verbatim>\<open>network.state.data\<close> holds a summary and a files object.\<close>

definition stub_sys_with :: "string option \<Rightarrow> files_obj \<Rightarrow> stub_world sys" where
  "stub_sys_with sm fo =
     stub_sys\<lparr>objs := (\<lambda>r. [])(0 := fo), next_ref := 1, data := \<lparr>summary = sm, files = Some 0\<rparr>\<rparr>"

text \<open>
  A model that lists the directory in its first turn and reports completion in its
  second.
\<close>

definition stub_env_done :: "(stub_world, unit) env" where
  "stub_env_done =
     stub_env\<lparr>infer := (\<lambda>h w.
       (if length h \<le> 1 then [ToolCallMessage [Terminal ''ls'']]
        else [TextMessage Assistant ''<task_summary>done</task_summary>''], w))\<rparr>"

section \<open>Properties of the step executor\<close>

lemma step_run_cached:
  "steps s (rid, stepName) = Some r \<Longrightarrow> step_run rid stepName operation s = (r, s)"
  by (simp add: step_run_def)

lemma step_run_fresh:
  "steps s (rid, stepName) = None \<Longrightarrow> operation s = (r, s') \<Longrightarrow>
   step_run rid stepName operation s = (r, s'\<lparr>steps := (steps s')((rid, stepName) \<mapsto> r)\<rparr>)"
  by (simp add: step_run_def)

lemma step_run_records:
  "step_run rid stepName operation s = (r, s1) \<Longrightarrow> steps s1 (rid, stepName) = Some r"
  by (auto simp: step_run_def split: option.splits prod.splits)

text \<open>
  C4. A step name executed twice within the same run identity: the second call returns the
  result the first call recorded and leaves the whole state, the outside world included,
  as it found it, whatever operation it is handed; so the operation is not invoked again.
  Other steps may run between the two calls, as long as the record is still there.
\<close>

theorem step_run_replay:
  assumes "step_run rid stepName operation s = (r, s1)"
    and "steps s2 (rid, stepName) = steps s1 (rid, stepName)"
  shows "step_run rid stepName operation' s2 = (r, s2)"
  using step_run_records [OF assms(1)] assms(2) by (simp add: step_run_cached)

theorem step_run_replay_witness:
  "step_run ''run-1'' ''get-sandbox-id'' (get_sandbox_id_op stub_env) stub_sys =
     (Inr (JString ''sbx''),
      stub_sys\<lparr>world := \<lparr>created = 1, saved = []\<rparr>, steps := [(''run-1'', ''get-sandbox-id'') \<mapsto> Inr (JString ''sbx'')]\<rparr>) \<and>
   step_run ''run-1'' ''get-sandbox-id'' (get_sandbox_id_op stub_env)
     (stub_sys\<lparr>world := \<lparr>created = 1, saved = []\<rparr>, steps := [(''run-1'', ''get-sandbox-id'') \<mapsto> Inr (JString ''sbx'')]\<rparr>) =
     (Inr (JString ''sbx''),
      stub_sys\<lparr>world := \<lparr>created = 1, saved = []\<rparr>, steps := [(''run-1'', ''get-sandbox-id'') \<mapsto> Inr (JString ''sbx'')]\<rparr>)"
proof -
  let ?s1 = "stub_sys\<lparr>world := \<lparr>created = 1, saved = []\<rparr>, steps := [(''run-1'', ''get-sandbox-id'') \<mapsto> Inr (JString ''sbx'')]\<rparr>"
  have first: "step_run ''run-1'' ''get-sandbox-id'' (get_sandbox_id_op stub_env) stub_sys =
      (Inr (JString ''sbx''), ?s1)"
    by (simp add: step_run_def get_sandbox_id_op_def stub_env_def stub_sys_def)
  from step_run_replay [OF first, of ?s1 "get_sandbox_id_op stub_env"] first
  show ?thesis by simp
qed

section \<open>Properties of the terminal tool\<close>

lemma emit_buffers:
  "stdout (foldl emit b events) = stdout b @ streamed_stdout events \<and>
   stderr (foldl emit b events) = stderr b @ streamed_stderr events"
proof (induction events arbitrary: b)
  case Nil
  show ?case by simp
next
  case (Cons e es)
  show ?case by (cases e) (simp_all add: Cons.IH)
qed

lemma terminal_handler_fresh:
  assumes "steps s (step, ''terminal'') = None"
    and "terminal_try env sandboxId command (world s) = ((events, outcome), w)"
  shows "terminal_handler env step sandboxId command s =
     (Inr (JString (case outcome of
                 Inl error \<Rightarrow> command_failed error (foldl emit \<lparr>stdout = [], stderr = []\<rparr> events)
               | Inr result_stdout \<Rightarrow> result_stdout)),
      s\<lparr>world := w, steps := (steps s)((step, ''terminal'') \<mapsto>
         Inr (JString (case outcome of
                 Inl error \<Rightarrow> command_failed error (foldl emit \<lparr>stdout = [], stderr = []\<rparr> events)
               | Inr result_stdout \<Rightarrow> result_stdout)))\<rparr>)"
  using assms
  by (simp add: terminal_handler_def step_run_def terminal_op_def Let_def split: sum.splits)

text \<open>
  C6. A command whose execution in the sandbox fails, by a throw of the command run or of
  the connection to the sandbox: on a step with no record yet, the terminal tool returns
  a string value, never a throw, and that string holds the error and all the data that
  the stdout and stderr callbacks had received before the failure.
\<close>

theorem terminal_failure_returns_text:
  assumes "steps s (step, ''terminal'') = None"
    and "terminal_try env sandboxId command (world s) = ((events, Inl error), w)"
  shows "fst (terminal_handler env step sandboxId command s) =
     Inr (JString
       (''Command failed: '' @ error @ '' '' @ [CHR 0x0A] @
        ''stdout: '' @ streamed_stdout events @ '' '' @ [CHR 0x0A] @
        ''stderr: '' @ streamed_stderr events))"
  using terminal_handler_fresh [OF assms]
  by (simp add: command_failed_def emit_buffers)

theorem terminal_failure_returns_text_witness:
  "steps stub_sys (''run-1'', ''terminal'') = None \<and>
   terminal_try stub_env (JString ''sbx'') ''nope'' (world stub_sys) =
     (([OnStdout ''partial'', OnStderr ''not found''], Inl ''Error: exit status 127''), world stub_sys) \<and>
   fst (terminal_handler stub_env ''run-1'' (JString ''sbx'') ''nope'' stub_sys) =
     Inr (JString (''Command failed: Error: exit status 127 '' @ [CHR 0x0A] @
                   ''stdout: partial '' @ [CHR 0x0A] @ ''stderr: not found''))"
proof -
  have fresh: "steps stub_sys (''run-1'', ''terminal'') = None"
    by (simp add: stub_sys_def)
  have run: "terminal_try stub_env (JString ''sbx'') ''nope'' (world stub_sys) =
     (([OnStdout ''partial'', OnStderr ''not found''], Inl ''Error: exit status 127''), world stub_sys)"
    by (simp add: terminal_try_def stub_env_def stub_sys_def)
  from terminal_failure_returns_text [OF fresh run] fresh run
  show ?thesis by simp
qed

text \<open>
  C10. A command whose execution in the sandbox succeeds: on a step with no record yet,
  the terminal tool returns \<^verbatim>\<open>result.stdout\<close> and nothing else; the data received on
  stderr is in the buffer, and the returned value does not depend on it.
\<close>

theorem terminal_success_returns_stdout:
  assumes "steps s (step, ''terminal'') = None"
    and "terminal_try env sandboxId command (world s) = ((events, Inr result_stdout), w)"
  shows "fst (terminal_handler env step sandboxId command s) = Inr (JString result_stdout) \<and>
     stderr (foldl emit \<lparr>stdout = [], stderr = []\<rparr> events) = streamed_stderr events"
  using terminal_handler_fresh [OF assms]
  by (simp add: emit_buffers)

theorem terminal_success_returns_stdout_witness:
  "steps stub_sys (''run-1'', ''terminal'') = None \<and>
   terminal_try stub_env (JString ''sbx'') ''ls'' (world stub_sys) =
     (([OnStdout ''a.txt'', OnStderr ''warning''], Inr ''a.txt''), world stub_sys) \<and>
   fst (terminal_handler stub_env ''run-1'' (JString ''sbx'') ''ls'' stub_sys) =
     Inr (JString ''a.txt'') \<and>
   stderr (foldl emit \<lparr>stdout = [], stderr = []\<rparr> [OnStdout ''a.txt'', OnStderr ''warning'']) =
     ''warning''"
proof -
  have fresh: "steps stub_sys (''run-1'', ''terminal'') = None"
    by (simp add: stub_sys_def)
  have run: "terminal_try stub_env (JString ''sbx'') ''ls'' (world stub_sys) =
     (([OnStdout ''a.txt'', OnStderr ''warning''], Inr ''a.txt''), world stub_sys)"
    by (simp add: terminal_try_def stub_env_def stub_sys_def)
  from terminal_success_returns_stdout [OF fresh run] fresh run
  show ?thesis by simp
qed

section \<open>Properties of the readFiles tool\<close>

lemma read_each_paths:
  "read_each env sandbox acc fs w = (Inr contents, w') \<Longrightarrow>
   map path contents = map path acc @ fs"
proof (induction fs arbitrary: acc w)
  case Nil
  then show ?case by simp
next
  case (Cons f fs)
  then show ?case
    by (auto split: prod.splits sum.splits)
qed

lemma read_each_short_circuit:
  "read_each env sandbox acc pre w = (Inr partial, w1) \<Longrightarrow>
   files_read env sandbox file w1 = (Inl error, w2) \<Longrightarrow>
   read_each env sandbox acc (pre @ file # post) w = (Inl error, w2)"
proof (induction pre arbitrary: acc w)
  case Nil
  then show ?case by simp
next
  case (Cons f fs)
  then show ?case
    by (auto split: prod.splits sum.splits)
qed

lemma readFiles_handler_fresh:
  assumes "steps s (step, ''readFiles'') = None"
    and "getSandbox env sandboxId (world s) = (Inr sandbox, w)"
    and "read_each env sandbox [] fs w = (outcome, w')"
  shows "readFiles_handler env sandboxId fs (Some step) s =
     (Inr (JString (case outcome of
                 Inl error \<Rightarrow> ''Error: '' @ error
               | Inr contents \<Rightarrow> JSON_stringify contents)),
      s\<lparr>world := w', steps := (steps s)((step, ''readFiles'') \<mapsto>
         Inr (JString (case outcome of
                 Inl error \<Rightarrow> ''Error: '' @ error
               | Inr contents \<Rightarrow> JSON_stringify contents)))\<rparr>)"
  using assms
  by (simp add: readFiles_handler_def step_run_def readFiles_op_def split: sum.splits)

lemma error_text_not_json: "''Error: '' @ error \<noteq> JSON_stringify cs"
  by (simp add: JSON_stringify_def)

text \<open>
  C7. On a step with no record yet and a sandbox that connects: when the loop over the
  paths reads every file, readFiles returns one string, the JSON text of the list of
  \<^verbatim>\<open>{path, content}\<close> entries, one per path and in the order asked; when the files
  \<open>pre\<close> are read and the read of the next file throws, readFiles returns the one string
  \<^verbatim>\<open>Error: ...\<close>, which is the JSON text of no list, and the files after it are not read.
\<close>

theorem readFiles_all_or_error:
  assumes "steps s (step, ''readFiles'') = None"
    and "getSandbox env sandboxId (world s) = (Inr sandbox, w)"
  shows "(read_each env sandbox [] fs w = (Inr contents, w') \<longrightarrow>
            fst (readFiles_handler env sandboxId fs (Some step) s) =
              Inr (JString (JSON_stringify contents)) \<and>
            map path contents = fs) \<and>
         (read_each env sandbox [] pre w = (Inr partial, w1) \<and>
          files_read env sandbox file w1 = (Inl error, w2) \<longrightarrow>
            fst (readFiles_handler env sandboxId (pre @ file # post) (Some step) s) =
              Inr (JString (''Error: '' @ error)) \<and>
            world (snd (readFiles_handler env sandboxId (pre @ file # post) (Some step) s)) = w2 \<and>
            (\<forall>cs. ''Error: '' @ error \<noteq> JSON_stringify cs))"
proof (intro conjI impI)
  assume ok: "read_each env sandbox [] fs w = (Inr contents, w')"
  from readFiles_handler_fresh [OF assms ok]
  show "fst (readFiles_handler env sandboxId fs (Some step) s) =
      Inr (JString (JSON_stringify contents))" by simp
  from read_each_paths [OF ok] show "map path contents = fs" by simp
next
  assume "read_each env sandbox [] pre w = (Inr partial, w1) \<and>
          files_read env sandbox file w1 = (Inl error, w2)"
  then have bad: "read_each env sandbox [] (pre @ file # post) w = (Inl error, w2)"
    by (simp add: read_each_short_circuit)
  from readFiles_handler_fresh [OF assms bad]
  show "fst (readFiles_handler env sandboxId (pre @ file # post) (Some step) s) =
      Inr (JString (''Error: '' @ error))" by simp
  from readFiles_handler_fresh [OF assms bad]
  show "world (snd (readFiles_handler env sandboxId (pre @ file # post) (Some step) s)) = w2"
    by simp
  show "\<forall>cs. ''Error: '' @ error \<noteq> JSON_stringify cs"
    using error_text_not_json by blast
qed

theorem readFiles_all_or_error_witness:
  "steps stub_sys (''run-1'', ''readFiles'') = None \<and>
   getSandbox stub_env (JString ''sbx'') (world stub_sys) = (Inr (), world stub_sys) \<and>
   read_each stub_env () [] [''a.txt''] (world stub_sys) = (Inr [\<lparr>path = ''a.txt'', content = ''hello''\<rparr>], world stub_sys) \<and>
   fst (readFiles_handler stub_env (JString ''sbx'') [''a.txt''] (Some ''run-1'') stub_sys) =
     Inr (JString (JSON_stringify [\<lparr>path = ''a.txt'', content = ''hello''\<rparr>])) \<and>
   JSON_stringify [\<lparr>path = ''a.txt'', content = ''hello''\<rparr>] =
     ''[{'' @ [CHR 0x22] @ ''path'' @ [CHR 0x22] @ '':'' @ [CHR 0x22] @ ''a.txt'' @ [CHR 0x22] @
     '','' @ [CHR 0x22] @ ''content'' @ [CHR 0x22] @ '':'' @ [CHR 0x22] @ ''hello'' @ [CHR 0x22] @
     ''}]'' \<and>
   files_read stub_env () ''missing.txt'' (world stub_sys) =
     (Inl ''Error: no such file'', world stub_sys) \<and>
   fst (readFiles_handler stub_env (JString ''sbx'') [''a.txt'', ''missing.txt'', ''a.txt'']
          (Some ''run-1'') stub_sys) =
     Inr (JString ''Error: Error: no such file'')"
proof -
  have fresh: "steps stub_sys (''run-1'', ''readFiles'') = None"
    by (simp add: stub_sys_def)
  have sb: "getSandbox stub_env (JString ''sbx'') (world stub_sys) = (Inr (), world stub_sys)"
    by (simp add: stub_env_def stub_sys_def)
  have ok: "read_each stub_env () [] [''a.txt''] (world stub_sys) =
      (Inr [\<lparr>path = ''a.txt'', content = ''hello''\<rparr>], world stub_sys)"
    by (simp add: stub_env_def)
  have bad: "files_read stub_env () ''missing.txt'' (world stub_sys) =
     (Inl ''Error: no such file'', world stub_sys)"
    by (simp add: stub_env_def)
  have json: "JSON_stringify [\<lparr>path = ''a.txt'', content = ''hello''\<rparr>] =
     ''[{'' @ [CHR 0x22] @ ''path'' @ [CHR 0x22] @ '':'' @ [CHR 0x22] @ ''a.txt'' @ [CHR 0x22] @
     '','' @ [CHR 0x22] @ ''content'' @ [CHR 0x22] @ '':'' @ [CHR 0x22] @ ''hello'' @ [CHR 0x22] @
     ''}]''"
    by (simp add: JSON_stringify_def json_entry_def json_quote_def json_escape_def)
  from readFiles_all_or_error [OF fresh sb, of "[''a.txt'']" _ "world stub_sys"
      "[''a.txt'']" _ "world stub_sys" "''missing.txt''" "''Error: no such file''" "world stub_sys"
      "[''a.txt'']"] ok bad
  have "fst (readFiles_handler stub_env (JString ''sbx'') [''a.txt''] (Some ''run-1'') stub_sys) =
     Inr (JString (JSON_stringify [\<lparr>path = ''a.txt'', content = ''hello''\<rparr>]))"
    and "fst (readFiles_handler stub_env (JString ''sbx'') [''a.txt'', ''missing.txt'', ''a.txt'']
          (Some ''run-1'') stub_sys) = Inr (JString ''Error: Error: no such file'')"
    by simp_all
  with fresh sb ok bad json show ?thesis by blast
qed

section \<open>Properties of the createOrUpdateFiles tool\<close>

lemma write_each_data: "data (snd (write_each env sandbox r fs s)) = data s"
proof (induction fs arbitrary: s)
  case Nil
  show ?case by simp
next
  case (Cons f fs)
  show ?case
    by (auto simp: Cons.IH set_property_def split: prod.splits sum.splits)
qed

lemma createOrUpdateFiles_op_data:
  "data (snd (createOrUpdateFiles_op env sandboxId fs s)) = data s"
proof -
  have "data (snd (write_each env sandbox r fs s')) = data s'" for sandbox r s'
    by (rule write_each_data)
  then have w: "write_each env sandbox r fs s' = (out, s1) \<Longrightarrow> data s1 = data s'"
    for sandbox r s' out s1 by (metis snd_conv)
  show ?thesis
    by (auto simp: createOrUpdateFiles_op_def new_object_def dest!: w
        split: prod.splits sum.splits option.splits)
qed







lemma write_each_steps: "steps (snd (write_each env sandbox r fs s)) = steps s"
proof (induction fs arbitrary: s)
  case Nil
  show ?case by simp
next
  case (Cons f fs)
  show ?case
    by (auto simp: Cons.IH set_property_def split: prod.splits sum.splits)
qed


lemma createOrUpdateFiles_op_steps:
  "steps (snd (createOrUpdateFiles_op env sandboxId fs s)) = steps s"
proof -
  have w: "write_each env sandbox r fs s' = (out, s1) \<Longrightarrow> steps s1 = steps s'"
    for sandbox r s' out s1 using write_each_steps [of env sandbox r fs s'] by simp
  show ?thesis
    by (auto simp: createOrUpdateFiles_op_def new_object_def dest!: w
        split: prod.splits sum.splits option.splits)
qed

lemma createOrUpdateFiles_op_value:
  "\<exists>v. fst (createOrUpdateFiles_op env sandboxId fs s) = Inr v"
  by (auto simp: createOrUpdateFiles_op_def split: prod.splits sum.splits option.splits)

lemma createOrUpdateFiles_handler_replay:
  assumes "steps s (step, ''createOrUpdateFiles'') = Some res"
  shows "createOrUpdateFiles_handler env sandboxId fs (Some step) s =
     (case res of
        Inl error \<Rightarrow> (Inl error, s)
      | Inr v \<Rightarrow>
          (Inr JUndefined,
           case v of JObject r \<Rightarrow> s\<lparr>data := (data s)\<lparr>files := Some r\<rparr>\<rparr> | _ \<Rightarrow> s))"
  using assms
  by (simp add: createOrUpdateFiles_handler_def step_run_def split: sum.splits)

lemma createOrUpdateFiles_handler_executes:
  assumes "steps s (step, ''createOrUpdateFiles'') = None"
    and "createOrUpdateFiles_op env sandboxId fs s = (Inr v, s1)"
  shows "createOrUpdateFiles_handler env sandboxId fs (Some step) s =
     (Inr JUndefined,
      case v of
        JObject r \<Rightarrow>
          s1\<lparr>steps := (steps s1)((step, ''createOrUpdateFiles'') \<mapsto> Inr v),
             data := (data s1)\<lparr>files := Some r\<rparr>\<rparr>
      | _ \<Rightarrow> s1\<lparr>steps := (steps s1)((step, ''createOrUpdateFiles'') \<mapsto> Inr v)\<rparr>)"
  using assms
  by (simp add: createOrUpdateFiles_handler_def step_run_def split: js_value.splits)

lemma files_recorded_fresh:
  "files_recorded step s \<Longrightarrow> steps s (step, ''createOrUpdateFiles'') = None \<Longrightarrow>
   files (data s) = None"
  by (auto simp: files_recorded_def split: option.splits)

text \<open>Every call of the handler keeps the files of the state recorded.\<close>

lemma createOrUpdateFiles_keeps_recorded:
  assumes "files_recorded step s"
  shows "files_recorded step (snd (createOrUpdateFiles_handler env sandboxId fs (Some step) s))"
proof (cases "steps s (step, ''createOrUpdateFiles'')")
  case (Some res)
  show ?thesis
    using assms Some
    by (auto simp: createOrUpdateFiles_handler_replay [OF Some] files_recorded_def
        split: sum.splits js_value.splits option.splits)
next
  case None
  obtain v s1 where op: "createOrUpdateFiles_op env sandboxId fs s = (Inr v, s1)"
    using createOrUpdateFiles_op_value [of env sandboxId fs s]
    by (cases "createOrUpdateFiles_op env sandboxId fs s") auto
  have d: "data s1 = data s"
    using createOrUpdateFiles_op_data [of env sandboxId fs s] op by simp
  show ?thesis
    using files_recorded_fresh [OF assms None] d
    by (auto simp: createOrUpdateFiles_handler_executes [OF None op] files_recorded_def
        split: js_value.splits)
qed






section \<open>Properties of the finalizer\<close>

lemma isError_iff:
  "isError s \<longleftrightarrow> \<not> (truthy (summary (data s)) \<and> files_or_empty s \<noteq> [])"
  by (auto simp: isError_def)

lemma files_value_nonempty:
  "files_or_empty s \<noteq> [] \<Longrightarrow> files_value s = Some (files_or_empty s)"
  by (auto simp: files_or_empty_def files_value_def split: option.splits)

lemma finalizer_fresh:
  assumes "steps s (step, ''get-sandbox-url'') = None"
    and "steps s (step, ''save-result'') = None"
    and "getSandbox env sandboxId (world s) = (Inr sandbox, w1)"
    and "sandboxUrl = JString (''https://'' @ getHost env sandbox 3000)"
    and "message_create env
           (if isError s then error_message else result_message sandboxUrl s) w1 = (r, w2)"
  shows "finalizer env step sandboxId s =
     (case r of
        Inl error \<Rightarrow> Inl error
      | Inr m \<Rightarrow> Inr \<lparr>ret_url = sandboxUrl, ret_title = ''Fragment'',
                      ret_files = files_value s, ret_summary = summary (data s)\<rparr>,
      s\<lparr>world := w2,
        steps := (steps s)
          ((step, ''get-sandbox-url'') \<mapsto> Inr sandboxUrl, (step, ''save-result'') \<mapsto> r)\<rparr>)"
proof -
  let ?s1 = "s\<lparr>world := w1, steps := (steps s)((step, ''get-sandbox-url'') \<mapsto> Inr sandboxUrl)\<rparr>"
  have url: "step_run step ''get-sandbox-url'' (get_sandbox_url_op env sandboxId) s =
      (Inr sandboxUrl, ?s1)"
    using assms(1,3,4) by (simp add: step_run_def get_sandbox_url_op_def)
  have msg: "result_message sandboxUrl ?s1 = result_message sandboxUrl s"
    by (simp add: result_message_def files_value_def)
  have save: "step_run step ''save-result'' (save_result_op env (isError s) sandboxUrl) ?s1 =
      (r, ?s1\<lparr>world := w2, steps := (steps ?s1)((step, ''save-result'') \<mapsto> r)\<rparr>)"
    using assms(2,5) by (cases "isError s") (simp_all add: step_run_def save_result_op_def msg)
  show ?thesis
    by (cases r; simp only: finalizer_def Let_def url prod.case sum.case save)
      (simp_all add: files_value_def)
qed

text \<open>
  C5. With no record yet for the two last steps and a sandbox that connects, the
  finalizer takes the run for a success exactly when the summary is non-empty and the
  files object is non-empty, and it saves one message: on success the result message,
  made of the summary text, the sandbox URL and the whole files object; otherwise the
  error message, with role assistant, type error, the fixed text, and no fragment.
  The message saved is the argument of the one call to the database that leads from the
  world after the URL step to the world the finalizer leaves.
\<close>

theorem finalizer_saves_result_or_error:
  assumes "steps s (step, ''get-sandbox-url'') = None"
    and "steps s (step, ''save-result'') = None"
    and "getSandbox env sandboxId (world s) = (Inr sandbox, w1)"
    and "message_create env
           (if truthy (summary (data s)) \<and> files_or_empty s \<noteq> []
            then \<lparr>msg_content = summary (data s), msg_role = ASSISTANT, msg_type = RESULT,
                  msg_fragment = Some
                    \<lparr>frag_sandboxUrl = JString (''https://'' @ getHost env sandbox 3000),
                     frag_files = Some (files_or_empty s), frag_title = ''Fragment''\<rparr>\<rparr>
            else \<lparr>msg_content = Some ''Something went wrong. Please try again.'',
                  msg_role = ASSISTANT, msg_type = ERROR, msg_fragment = None\<rparr>) w1 = (r, w2)"
  shows "isError s = (\<not> (truthy (summary (data s)) \<and> files_or_empty s \<noteq> [])) \<and>
     world (snd (finalizer env step sandboxId s)) = w2 \<and>
     steps (snd (finalizer env step sandboxId s)) (step, ''save-result'') = Some r"
proof -
  have "message_create env
           (if isError s then error_message
            else result_message (JString (''https://'' @ getHost env sandbox 3000)) s) w1 = (r, w2)"
    using assms(4)
    by (cases "truthy (summary (data s)) \<and> files_or_empty s \<noteq> []")
      (simp_all add: isError_iff error_message_def result_message_def files_value_nonempty)
  from finalizer_fresh [OF assms(1,2,3) refl this] show ?thesis
    by (simp add: isError_iff)
qed

text \<open>
  C9. Whether or not the run passed validation, the function resolves the sandbox URL
  in the step \<^verbatim>\<open>get-sandbox-url\<close> and, once the message is saved, returns the record
  \<^verbatim>\<open>{url, title: "Fragment", files, summary}\<close> built from the state as it is: files and
  summary are undefined when the state has none.
\<close>

theorem finalizer_returns_same_shape:
  assumes "steps s (step, ''get-sandbox-url'') = None"
    and "steps s (step, ''save-result'') = None"
    and "getSandbox env sandboxId (world s) = (Inr sandbox, w1)"
    and "message_create env
           (if isError s then error_message
            else result_message (JString (''https://'' @ getHost env sandbox 3000)) s) w1 =
         (Inr m, w2)"
  shows "fst (finalizer env step sandboxId s) =
       Inr \<lparr>ret_url = JString (''https://'' @ getHost env sandbox 3000), ret_title = ''Fragment'',
            ret_files = files_value s, ret_summary = summary (data s)\<rparr> \<and>
     steps (snd (finalizer env step sandboxId s)) (step, ''get-sandbox-url'') =
       Some (Inr (JString (''https://'' @ getHost env sandbox 3000)))"
  using finalizer_fresh [OF assms(1,2,3) refl assms(4)] by simp

theorem finalizer_saves_result_or_error_witness:
  "\<not> isError (stub_sys_with (Some ''<task_summary>done</task_summary>'') [(''app/page.tsx'', ''...'')]) \<and>
   saved (world (snd (finalizer stub_env ''run-1'' (JString ''sbx'')
     (stub_sys_with (Some ''<task_summary>done</task_summary>'') [(''app/page.tsx'', ''...'')])))) =
     [\<lparr>msg_content = Some ''<task_summary>done</task_summary>'', msg_role = ASSISTANT,
       msg_type = RESULT,
       msg_fragment = Some \<lparr>frag_sandboxUrl = JString ''https://3000-sbx.e2b.app'',
                              frag_files = Some [(''app/page.tsx'', ''...'')],
                              frag_title = ''Fragment''\<rparr>\<rparr>] \<and>
   isError (stub_sys_with (Some []) []) \<and>
   saved (world (snd (finalizer stub_env ''run-1'' (JString ''sbx'') (stub_sys_with (Some []) [])))) =
     [\<lparr>msg_content = Some ''Something went wrong. Please try again.'', msg_role = ASSISTANT,
       msg_type = ERROR, msg_fragment = None\<rparr>]"
proof -
  let ?ok = "stub_sys_with (Some ''<task_summary>done</task_summary>'') [(''app/page.tsx'', ''...'')]"
  let ?bad = "stub_sys_with (Some []) []"
  let ?w = "\<lparr>created = 0, saved = []\<rparr>"
  have fresh: "steps ?ok (''run-1'', ''get-sandbox-url'') = None"
    "steps ?ok (''run-1'', ''save-result'') = None"
    "steps ?bad (''run-1'', ''get-sandbox-url'') = None"
    "steps ?bad (''run-1'', ''save-result'') = None"
    by (simp_all add: stub_sys_with_def stub_sys_def)
  have sb: "getSandbox stub_env (JString ''sbx'') (world ?ok) = (Inr (), ?w)"
    "getSandbox stub_env (JString ''sbx'') (world ?bad) = (Inr (), ?w)"
    by (simp_all add: stub_sys_with_def stub_sys_def stub_env_def)
  have facts: "truthy (summary (data ?ok))" "files_or_empty ?ok = [(''app/page.tsx'', ''...'')]"
    "summary (data ?ok) = Some ''<task_summary>done</task_summary>''"
    "\<not> truthy (summary (data ?bad))" "files_or_empty ?bad = []"
    by (simp_all add: stub_sys_with_def stub_sys_def truthy_def files_or_empty_def)
  have host: "getHost stub_env () 3000 = ''3000-sbx.e2b.app''"
    by (simp add: stub_env_def)
  have create: "message_create stub_env d ?w = (Inr (JString ''message-1''), \<lparr>created = 0, saved = [d]\<rparr>)"
    for d by (simp add: stub_env_def)
  from finalizer_saves_result_or_error [OF fresh(1,2) sb(1) create]
    finalizer_saves_result_or_error [OF fresh(3,4) sb(2) create]
  show ?thesis
    by (simp add: facts host truthy_def)
qed

theorem finalizer_returns_same_shape_witness:
  "isError stub_sys \<and>
   fst (finalizer stub_env ''run-1'' (JString ''sbx'') stub_sys) =
     Inr \<lparr>ret_url = JString ''https://3000-sbx.e2b.app'', ret_title = ''Fragment'',
          ret_files = None, ret_summary = None\<rparr> \<and>
   steps (snd (finalizer stub_env ''run-1'' (JString ''sbx'') stub_sys)) (''run-1'', ''get-sandbox-url'') =
     Some (Inr (JString ''https://3000-sbx.e2b.app''))"
proof -
  have fresh: "steps stub_sys (''run-1'', ''get-sandbox-url'') = None"
    "steps stub_sys (''run-1'', ''save-result'') = None"
    by (simp_all add: stub_sys_def)
  have sb: "getSandbox stub_env (JString ''sbx'') (world stub_sys) = (Inr (), world stub_sys)"
    by (simp add: stub_sys_def stub_env_def)
  have err: "isError stub_sys"
    by (simp add: isError_def truthy_def stub_sys_def)
  have create: "message_create stub_env d (world stub_sys) =
      (Inr (JString ''message-1''), \<lparr>created = 0, saved = [d]\<rparr>)"
    for d by (simp add: stub_env_def stub_sys_def)
  have host: "getHost stub_env () 3000 = ''3000-sbx.e2b.app''"
    by (simp add: stub_env_def)
  from finalizer_returns_same_shape [OF fresh sb create] err
  show ?thesis
    by (simp add: host files_value_def stub_sys_def)
qed

section \<open>Properties of the completion detector\<close>

lemma no_assistant_text:
  "\<forall>m\<in>set ms. \<forall>t. m \<noteq> TextMessage Assistant t \<Longrightarrow> lastAssistantTextMessageContent ms = None"
proof (induction ms)
  case Nil
  show ?case by simp
next
  case (Cons m ms)
  then have "lastAssistantTextMessageContent ms = None" and "\<forall>t. m \<noteq> TextMessage Assistant t"
    by simp_all
  then show ?case
    by (cases m) (auto split: role.splits)
qed

lemma last_text_append:
  "lastAssistantTextMessageContent (pre @ ms) =
     (case lastAssistantTextMessageContent ms of
        Some t \<Rightarrow> Some t
      | None \<Rightarrow> lastAssistantTextMessageContent pre)"
  by (induction pre) (auto split: option.splits)

lemma last_text_final:
  assumes "\<forall>m\<in>set post. \<forall>t. m \<noteq> TextMessage Assistant t"
  shows "lastAssistantTextMessageContent (pre @ TextMessage Assistant text # post) = Some text"
  using no_assistant_text [OF assms] by (simp add: last_text_append)

lemma includes_marker_nonempty: "str_includes text marker \<Longrightarrow> text \<noteq> []"
  by (auto simp: marker_def)

text \<open>
  C8. The result of a turn whose last assistant text message is \<open>text\<close>; before it come
  any messages, after it come only messages that are not assistant text (tool calls,
  tool results). The detector looks at \<open>text\<close> alone: when it contains the marker the
  summary becomes \<open>text\<close> itself, marker included, and otherwise the state is left as it
  is, whatever the other messages contain.
\<close>

theorem onResponse_final_assistant_text:
  assumes "\<forall>m\<in>set post. \<forall>t. m \<noteq> TextMessage Assistant t"
  shows "onResponse (pre @ TextMessage Assistant text # post) (Some n) =
     Some (if str_includes text marker then n\<lparr>data := (data n)\<lparr>summary := Some text\<rparr>\<rparr> else n)"
  using includes_marker_nonempty [of "text"]
  by (auto simp: onResponse_def last_text_final [OF assms])

theorem onResponse_final_assistant_text_witness:
  "onResponse
     ([TextMessage Assistant ''<task_summary>early'', ToolCallMessage [Terminal ''ls'']] @
      TextMessage Assistant ''<task_summary>done</task_summary>'' #
      [ToolCallMessage [ReadFiles [''<task_summary>'']], ToolResultMessage (Inr (JString ''<task_summary>''))])
     (Some stub_sys) =
     Some (stub_sys\<lparr>data := \<lparr>summary = Some ''<task_summary>done</task_summary>'', files = None\<rparr>\<rparr>) \<and>
   onResponse
     ([TextMessage Assistant ''<task_summary>early''] @
      TextMessage Assistant ''still working'' #
      [ToolCallMessage [Terminal ''echo <task_summary>'']])
     (Some stub_sys) = Some stub_sys"
proof -
  have a: "\<forall>m\<in>set [ToolCallMessage [ReadFiles [''<task_summary>'']],
                     ToolResultMessage (Inr (JString ''<task_summary>''))].
             \<forall>t. m \<noteq> TextMessage Assistant t"
    by simp
  have b: "\<forall>m\<in>set [ToolCallMessage [Terminal ''echo <task_summary>'']].
             \<forall>t. m \<noteq> TextMessage Assistant t"
    by simp
  have yes: "str_includes ''<task_summary>done</task_summary>'' marker"
    by (simp add: marker_def)
  have no: "\<not> str_includes ''still working'' marker"
    by (simp add: marker_def)
  from onResponse_final_assistant_text [OF a, of "[TextMessage Assistant ''<task_summary>early'', ToolCallMessage [Terminal ''ls'']]"
      "''<task_summary>done</task_summary>''" stub_sys]
    onResponse_final_assistant_text [OF b, of "[TextMessage Assistant ''<task_summary>early'']"
      "''still working''" stub_sys]
  show ?thesis
    by (simp only: yes no if_True if_False) (simp add: stub_sys_def)
qed

section \<open>Properties of the network\<close>

lemma step_run_data:
  assumes "\<And>s. data (snd (operation s)) = data s"
  shows "data (snd (step_run rid stepName operation s)) = data s"
  using assms [of s]
  by (auto simp: step_run_def split: option.splits prod.splits)

lemma terminal_op_data: "data (snd (terminal_op env sandboxId command s)) = data s"
  by (auto simp: terminal_op_def Let_def split: prod.splits sum.splits)

lemma readFiles_op_data: "data (snd (readFiles_op env sandboxId fs s)) = data s"
  by (auto simp: readFiles_op_def split: prod.splits sum.splits)

lemma invoke_tool_summary:
  "summary (data (snd (invoke_tool env step sandboxId c s))) = summary (data s)"
proof (cases c)
  case (Terminal command)
  then show ?thesis
    by (simp add: terminal_handler_def step_run_data terminal_op_data)
next
  case (CreateOrUpdateFiles fs)
  have "data (snd (step_run step ''createOrUpdateFiles''
          (createOrUpdateFiles_op env sandboxId fs) s)) = data s"
    by (simp add: step_run_data createOrUpdateFiles_op_data)
  then show ?thesis
    using CreateOrUpdateFiles
    by (auto simp: createOrUpdateFiles_handler_def split: prod.splits sum.splits js_value.splits)
next
  case (ReadFiles fs)
  then show ?thesis
    by (simp add: readFiles_handler_def step_run_data readFiles_op_data)
qed

lemma invoke_tools_summary:
  "summary (data (snd (invoke_tools env step sandboxId cs s))) = summary (data s)"
proof (induction cs arbitrary: s)
  case Nil
  show ?case by simp
next
  case (Cons c cs)
  show ?case
    using Cons.IH invoke_tool_summary [of env step sandboxId c s]
    by (auto split: prod.splits) (metis snd_conv)
qed

lemma agent_turn_summary:
  "summary (data (agent_turn env step sandboxId s)) =
     (case lastAssistantTextMessageContent (fst (infer env (history s) (world s))) of
        None \<Rightarrow> summary (data s)
      | Some t \<Rightarrow> if str_includes t marker then Some t else summary (data s))"
proof -
  obtain result w where i: "infer env (history s) (world s) = (result, w)"
    by (cases "infer env (history s) (world s)")
  obtain rs s1 where t: "invoke_tools env step sandboxId (tool_calls result) (s\<lparr>world := w\<rparr>) = (rs, s1)"
    by (cases "invoke_tools env step sandboxId (tool_calls result) (s\<lparr>world := w\<rparr>)")
  have "summary (data s1) = summary (data s)"
    using invoke_tools_summary [of env step sandboxId "tool_calls result" "s\<lparr>world := w\<rparr>"] t
    by simp
  then show ?thesis
    using includes_marker_nonempty
    by (auto simp: agent_turn_def i t onResponse_def split: option.splits)
qed

lemma network_loop_cap:
  "maxIter \<le> k \<Longrightarrow> network_loop env step sandboxId k s = []"
  by (simp add: network_loop.simps)

lemma network_loop_stop:
  "\<not> maxIter \<le> k \<Longrightarrow> router (agent_turn env step sandboxId s) = None \<Longrightarrow>
   network_loop env step sandboxId k s = [agent_turn env step sandboxId s]"
  by (simp add: network_loop.simps [of env step sandboxId k s])

lemma network_loop_continue:
  "\<not> maxIter \<le> k \<Longrightarrow> router (agent_turn env step sandboxId s) = Some a \<Longrightarrow>
   network_loop env step sandboxId k s =
     agent_turn env step sandboxId s #
     network_loop env step sandboxId (Suc k) (agent_turn env step sandboxId s)"
  by (cases a) (simp add: network_loop.simps [of env step sandboxId k s] Let_def)

lemma router_Some_iff: "router n = Some a \<longleftrightarrow> \<not> truthy (summary (data n))"
  by (cases a) (simp add: router_def)

lemma network_loop_turn_starts:
  "\<forall>n\<in>set (butlast (network_loop env step sandboxId k s)). \<not> truthy (summary (data n))"
proof (induction env step sandboxId k s rule: network_loop.induct)
  case (1 env step sandboxId turns s)
  show ?case
  proof (cases "maxIter \<le> turns")
    case True
    then show ?thesis by (simp add: network_loop_cap)
  next
    case False
    show ?thesis
    proof (cases "router (agent_turn env step sandboxId s)")
      case None
      with False show ?thesis by (simp add: network_loop_stop)
    next
      case (Some a)
      then have empty: "\<not> truthy (summary (data (agent_turn env step sandboxId s)))"
        by (simp add: router_Some_iff)
      have a: "a = CodeAgent" by (cases a)
      from "1.IH" [OF False refl Some a] empty
      show ?thesis
        by (simp add: network_loop_continue [OF False Some])
    qed
  qed
qed

lemma network_loop_no_marker:
  assumes "\<forall>h w t. lastAssistantTextMessageContent (fst (infer env h w)) = Some t \<longrightarrow>
             \<not> str_includes t marker"
    and "\<not> truthy (summary (data s))"
  shows "length (network_loop env step sandboxId k s) = maxIter - k \<and>
     (\<forall>n\<in>set (network_loop env step sandboxId k s). summary (data n) = summary (data s))"
  using assms
proof (induction env step sandboxId k s rule: network_loop.induct)
  case (1 env step sandboxId turns s)
  have same: "summary (data (agent_turn env step sandboxId s)) = summary (data s)"
    using "1.prems"(1) by (auto simp: agent_turn_summary split: option.splits)
  show ?case
  proof (cases "maxIter \<le> turns")
    case True
    then show ?thesis by (simp add: network_loop_cap)
  next
    case False
    from same "1.prems"(2) have r: "router (agent_turn env step sandboxId s) = Some CodeAgent"
      by (simp add: router_Some_iff)
    from "1.IH" [OF False refl r refl "1.prems"(1)] same "1.prems"(2) False
    show ?thesis
      by (simp add: network_loop_continue [OF False r])
  qed
qed

text \<open>
  C3. A model whose final assistant text never contains the marker, whatever the
  conversation and the world: the network runs exactly 15 turns, after each of them the
  router returns the one agent, and the state it ends with has no summary. The run ends
  as any other does, by returning the network's state; that the summary is unset is all
  that tells this stop from a completion.
\<close>

theorem network_stops_at_cap:
  assumes "\<forall>h w t. lastAssistantTextMessageContent (fst (infer env h w)) = Some t \<longrightarrow>
             \<not> str_includes t marker"
  shows "length (network_loop env step sandboxId 0 (network_start input s)) = 15 \<and>
     (\<forall>n\<in>set (network_loop env step sandboxId 0 (network_start input s)).
        router n = Some CodeAgent) \<and>
     summary (data (network_run env step sandboxId input s)) = None"
proof -
  let ?s0 = "network_start input s"
  let ?trace = "network_loop env step sandboxId 0 ?s0"
  have s0: "summary (data ?s0) = None"
    by (simp add: network_start_def)
  then have "\<not> truthy (summary (data ?s0))"
    by (simp add: truthy_def)
  from network_loop_no_marker [OF assms this, of step sandboxId 0]
  have len: "length ?trace = 15" and all: "\<forall>n\<in>set ?trace. summary (data n) = None"
    by (simp_all add: maxIter_def s0)
  from len have ne: "?trace \<noteq> []" by auto
  from all have "\<forall>n\<in>set ?trace. router n = Some CodeAgent"
    by (simp add: router_def truthy_def)
  moreover from ne all have "summary (data (network_run env step sandboxId input s)) = None"
    by (simp add: network_run_def)
  ultimately show ?thesis using len by simp
qed

theorem network_stops_at_cap_witness:
  "(\<forall>h w. lastAssistantTextMessageContent (fst (infer stub_env h w)) = Some ''working'') \<and>
   \<not> str_includes ''working'' marker \<and>
   length (network_loop stub_env ''run-1'' (JString ''sbx'') 0 (network_start ''build'' stub_sys)) = 15 \<and>
   summary (data (network_run stub_env ''run-1'' (JString ''sbx'') ''build'' stub_sys)) = None"
proof -
  have says: "\<forall>h w. lastAssistantTextMessageContent (fst (infer stub_env h w)) = Some ''working''"
    by (simp add: stub_env_def)
  have plain: "\<not> str_includes ''working'' marker"
    by (simp add: marker_def)
  from says plain
  have never: "\<forall>h w t. lastAssistantTextMessageContent (fst (infer stub_env h w)) = Some t \<longrightarrow>
      \<not> str_includes t marker"
    by simp
  from network_stops_at_cap [OF never, of "''run-1''" "JString ''sbx''" "''build''" stub_sys]
    says plain
  show ?thesis by simp
qed

subsection \<open>The files of the state stay recorded throughout a run\<close>

lemma terminal_op_steps: "steps (snd (terminal_op env sandboxId command s)) = steps s"
  by (auto simp: terminal_op_def Let_def split: prod.splits sum.splits)

lemma readFiles_op_steps: "steps (snd (readFiles_op env sandboxId fs s)) = steps s"
  by (auto simp: readFiles_op_def split: prod.splits sum.splits)

lemma step_run_other_keeps_recorded:
  assumes "stepName \<noteq> ''createOrUpdateFiles''"
    and "\<And>s. steps (snd (operation s)) = steps s"
    and "\<And>s. data (snd (operation s)) = data s"
    and "files_recorded step s"
  shows "files_recorded step (snd (step_run step stepName operation s))"
  using assms(1,4) assms(2) [of s] assms(3) [of s]
  by (auto simp: step_run_def files_recorded_def split: option.splits prod.splits)

lemma invoke_tool_keeps_recorded:
  assumes "files_recorded step s"
  shows "files_recorded step (snd (invoke_tool env step sandboxId c s))"
proof (cases c)
  case (Terminal command)
  then show ?thesis
    using assms
    by (simp add: terminal_handler_def step_run_other_keeps_recorded terminal_op_steps
        terminal_op_data)
next
  case (CreateOrUpdateFiles fs)
  then show ?thesis
    using assms by (simp add: createOrUpdateFiles_keeps_recorded)
next
  case (ReadFiles fs)
  then show ?thesis
    using assms
    by (simp add: readFiles_handler_def step_run_other_keeps_recorded readFiles_op_steps
        readFiles_op_data)
qed

lemma invoke_tools_keeps_recorded:
  "files_recorded step s \<Longrightarrow> files_recorded step (snd (invoke_tools env step sandboxId cs s))"
proof (induction cs arbitrary: s)
  case Nil
  then show ?case by simp
next
  case (Cons c cs)
  from Cons.IH [OF invoke_tool_keeps_recorded [OF Cons.prems, of env sandboxId c]]
  show ?case
    by (simp split: prod.splits) (metis snd_conv)
qed

lemma agent_turn_keeps_recorded:
  assumes "files_recorded step s"
  shows "files_recorded step (agent_turn env step sandboxId s)"
proof -
  obtain result w where i: "infer env (history s) (world s) = (result, w)"
    by (cases "infer env (history s) (world s)")
  obtain rs s1 where t: "invoke_tools env step sandboxId (tool_calls result) (s\<lparr>world := w\<rparr>) = (rs, s1)"
    by (cases "invoke_tools env step sandboxId (tool_calls result) (s\<lparr>world := w\<rparr>)")
  from assms have "files_recorded step (s\<lparr>world := w\<rparr>)"
    by (simp add: files_recorded_def split: option.splits)
  from invoke_tools_keeps_recorded [OF this, of env sandboxId "tool_calls result"] t
  have "files_recorded step s1" by simp
  then show ?thesis
    by (auto simp: agent_turn_def i t onResponse_def files_recorded_def split: option.splits)
qed

text \<open>
  In a run of the network the files of the state are recorded after every turn; with
  the lemmas above, so they are whenever a tool handler is called.
\<close>

lemma network_loop_keeps_recorded:
  "files_recorded step s \<Longrightarrow>
   \<forall>n\<in>set (network_loop env step sandboxId k s). files_recorded step n"
proof (induction env step sandboxId k s rule: network_loop.induct)
  case (1 env step sandboxId turns s)
  note turn = agent_turn_keeps_recorded [OF "1.prems", of env sandboxId]
  show ?case
  proof (cases "maxIter \<le> turns")
    case True
    then show ?thesis by (simp add: network_loop_cap)
  next
    case False
    show ?thesis
    proof (cases "router (agent_turn env step sandboxId s)")
      case None
      with False turn show ?thesis by (simp add: network_loop_stop)
    next
      case (Some a)
      have a: "a = CodeAgent" by (cases a)
      from "1.IH" [OF False refl Some a turn] turn
      show ?thesis
        by (simp add: network_loop_continue [OF False Some])
    qed
  qed
qed

lemma network_start_recorded: "files_recorded step (network_start input s)"
  by (simp add: files_recorded_def network_start_def)

subsection \<open>The summary is set once\<close>

lemma hook_input_summary:
  "summary (data (snd (hook_input env step sandboxId s))) = summary (data s)"
proof -
  obtain result w where i: "infer env (history s) (world s) = (result, w)"
    by (cases "infer env (history s) (world s)")
  show ?thesis
    using invoke_tools_summary [of env step sandboxId "tool_calls result" "s\<lparr>world := w\<rparr>"]
    by (simp add: hook_input_def i)
qed

lemma agent_turn_hook:
  assumes "hook_input env step sandboxId s = (result, n)"
  shows "map_option data (onResponse result (Some n)) = Some (data (agent_turn env step sandboxId s))"
proof -
  obtain w where i: "infer env (history s) (world s) = (result, w)"
    using assms by (auto simp: hook_input_def split: prod.splits)
  obtain rs where t: "invoke_tools env step sandboxId (tool_calls result) (s\<lparr>world := w\<rparr>) = (rs, n)"
    using assms i
    by (cases "invoke_tools env step sandboxId (tool_calls result) (s\<lparr>world := w\<rparr>)")
      (simp add: hook_input_def)
  show ?thesis
    by (auto simp: agent_turn_def i t onResponse_def split: option.splits)
qed

lemma network_loop_nth:
  "i < length (network_loop env step sandboxId k s) \<Longrightarrow>
   network_loop env step sandboxId k s ! i =
     agent_turn env step sandboxId ((s # network_loop env step sandboxId k s) ! i)"
proof (induction env step sandboxId k s arbitrary: i rule: network_loop.induct)
  case (1 env step sandboxId turns s)
  show ?case
  proof (cases "maxIter \<le> turns")
    case True
    with "1.prems" show ?thesis by (simp add: network_loop_cap)
  next
    case False
    show ?thesis
    proof (cases "router (agent_turn env step sandboxId s)")
      case None
      with False "1.prems" show ?thesis by (simp add: network_loop_stop)
    next
      case (Some a)
      have a: "a = CodeAgent" by (cases a)
      note unfold = network_loop_continue [OF False Some]
      show ?thesis
      proof (cases i)
        case 0
        then show ?thesis by (simp add: unfold)
      next
        case (Suc i')
        with "1.prems" have "i' < length (network_loop env step sandboxId (Suc turns)
            (agent_turn env step sandboxId s))"
          by (simp add: unfold)
        from "1.IH" [OF False refl Some a this] Suc
        show ?thesis by (simp add: unfold)
      qed
    qed
  qed
qed

lemma summary_ends_run:
  assumes "i < length (network_loop env step sandboxId k s)"
    and "truthy (summary (data (network_loop env step sandboxId k s ! i)))"
  shows "Suc i = length (network_loop env step sandboxId k s)"
proof (rule ccontr)
  assume "Suc i \<noteq> length (network_loop env step sandboxId k s)"
  with assms(1) have "i < length (butlast (network_loop env step sandboxId k s))"
    by simp
  then have "network_loop env step sandboxId k s ! i \<in> set (butlast (network_loop env step sandboxId k s))"
    by (metis nth_butlast nth_mem)
  with network_loop_turn_starts [of env step sandboxId k s] assms(2)
  show False by blast
qed

lemma turn_starts_empty:
  assumes "i < length (network_loop env step sandboxId k s)"
    and "\<not> truthy (summary (data s))"
  shows "\<not> truthy (summary (data ((s # network_loop env step sandboxId k s) ! i)))"
proof (cases i)
  case 0
  with assms(2) show ?thesis by simp
next
  case (Suc i')
  with assms(1) have "i' < length (butlast (network_loop env step sandboxId k s))"
    by simp
  then have "network_loop env step sandboxId k s ! i' \<in> set (butlast (network_loop env step sandboxId k s))"
    by (metis nth_butlast nth_mem)
  with network_loop_turn_starts [of env step sandboxId k s] Suc
  show ?thesis by simp
qed

text \<open>
  C2. In a run of the network, turn by turn: the invocation of \<^verbatim>\<open>onResponse\<close> in a turn
  finds the summary empty, and the state after the turn holds what that invocation left;
  and once the summary is non-empty after a turn, that turn is the last of the run, so
  no later invocation of the hook exists to change it, whatever the model would have
  written next: every state of the run from there on, and the state the run returns,
  hold that same summary.
\<close>

theorem summary_set_once:
  "let start = network_start input s;
       trace = network_loop env step sandboxId 0 start
   in \<forall>i<length trace.
        (case hook_input env step sandboxId ((start # trace) ! i) of
           (result, n) \<Rightarrow>
             \<not> truthy (summary (data n)) \<and>
             map_option data (onResponse result (Some n)) = Some (data (trace ! i))) \<and>
        (truthy (summary (data (trace ! i))) \<longrightarrow>
           Suc i = length trace \<and>
           (\<forall>j. i \<le> j \<and> j < length trace \<longrightarrow>
              summary (data (trace ! j)) = summary (data (trace ! i))) \<and>
           summary (data (network_run env step sandboxId input s)) =
             summary (data (trace ! i)))"
proof -
  define start where "start = network_start input s"
  define trace where "trace = network_loop env step sandboxId 0 start"
  have empty: "\<not> truthy (summary (data start))"
    by (simp add: start_def network_start_def truthy_def)
  have run: "network_run env step sandboxId input s = last (start # trace)"
    by (simp add: network_run_def start_def trace_def)
  have main: "(case hook_input env step sandboxId ((start # trace) ! i) of
           (result, n) \<Rightarrow>
             \<not> truthy (summary (data n)) \<and>
             map_option data (onResponse result (Some n)) = Some (data (trace ! i))) \<and>
        (truthy (summary (data (trace ! i))) \<longrightarrow>
           Suc i = length trace \<and>
           (\<forall>j. i \<le> j \<and> j < length trace \<longrightarrow>
              summary (data (trace ! j)) = summary (data (trace ! i))) \<and>
           summary (data (network_run env step sandboxId input s)) =
             summary (data (trace ! i)))"
    if i: "i < length trace" for i
  proof (intro conjI impI)
    obtain result n where h: "hook_input env step sandboxId ((start # trace) ! i) = (result, n)"
      by (cases "hook_input env step sandboxId ((start # trace) ! i)")
    have before: "\<not> truthy (summary (data ((start # trace) ! i)))"
      using turn_starts_empty [of i env step sandboxId 0 start] i empty
      by (simp add: trace_def)
    have n: "\<not> truthy (summary (data n))"
      using hook_input_summary [of env step sandboxId "(start # trace) ! i"] h before by simp
    have "trace ! i = agent_turn env step sandboxId ((start # trace) ! i)"
      using network_loop_nth [of i env step sandboxId 0 start] i by (simp add: trace_def)
    with agent_turn_hook [OF h]
    have "map_option data (onResponse result (Some n)) = Some (data (trace ! i))"
      by simp
    with n h show "case hook_input env step sandboxId ((start # trace) ! i) of
           (result, n) \<Rightarrow>
             \<not> truthy (summary (data n)) \<and>
             map_option data (onResponse result (Some n)) = Some (data (trace ! i))"
      by simp
  next
    assume t: "truthy (summary (data (trace ! i)))"
    show last: "Suc i = length trace"
      using summary_ends_run [of i env step sandboxId 0 start] i t by (simp add: trace_def)
    show "\<forall>j. i \<le> j \<and> j < length trace \<longrightarrow>
        summary (data (trace ! j)) = summary (data (trace ! i))"
    proof (intro allI impI)
      fix j
      assume "i \<le> j \<and> j < length trace"
      with last have "j = i" by simp
      then show "summary (data (trace ! j)) = summary (data (trace ! i))" by simp
    qed
    from last have ne: "trace \<noteq> []"
      by auto
    from last have "i = length trace - 1"
      by simp
    with ne have "trace \<noteq> []" and "last trace = trace ! i"
      by (simp_all add: last_conv_nth)
    then show "summary (data (network_run env step sandboxId input s)) =
        summary (data (trace ! i))"
      by (simp add: run)
  qed
  show ?thesis
    unfolding Let_def start_def [symmetric] trace_def [symmetric]
    using main by blast
qed

theorem summary_set_once_witness:
  "map (\<lambda>n. summary (data n))
     (network_loop stub_env_done ''run-1'' (JString ''sbx'') 0 (network_start ''build'' stub_sys)) =
     [None, Some ''<task_summary>done</task_summary>''] \<and>
   \<not> truthy (summary (data (snd (hook_input stub_env_done ''run-1'' (JString ''sbx'')
     (hd (network_loop stub_env_done ''run-1'' (JString ''sbx'') 0
           (network_start ''build'' stub_sys))))))) \<and>
   summary (data (network_run stub_env_done ''run-1'' (JString ''sbx'') ''build'' stub_sys)) =
     Some ''<task_summary>done</task_summary>''"
proof -
  let ?start = "network_start ''build'' stub_sys"
  let ?trace = "network_loop stub_env_done ''run-1'' (JString ''sbx'') 0 ?start"
  have run: "map (\<lambda>n. summary (data n)) ?trace = [None, Some ''<task_summary>done</task_summary>'']"
    by (simp add: network_loop.simps maxIter_def agent_turn_def router_def truthy_def
        onResponse_def marker_def terminal_handler_def step_run_def terminal_op_def
        terminal_try_def network_start_def stub_env_done_def stub_env_def stub_sys_def Let_def)
  then obtain t0 t1 where tr: "?trace = [t0, t1]"
    and t1: "summary (data t1) = Some ''<task_summary>done</task_summary>''"
    by (auto simp: map_eq_Cons_conv)
  from t1 have set: "truthy (summary (data t1))"
    by (simp add: truthy_def)
  from summary_set_once [of "''build''" stub_sys stub_env_done "''run-1''" "JString ''sbx''",
      unfolded Let_def, rule_format, of 1]
  have "(case hook_input stub_env_done ''run-1'' (JString ''sbx'') ((?start # ?trace) ! 1) of
           (result, n) \<Rightarrow>
             \<not> truthy (summary (data n)) \<and>
             map_option data (onResponse result (Some n)) = Some (data (?trace ! 1))) \<and>
        (truthy (summary (data (?trace ! 1))) \<longrightarrow>
           Suc 1 = length ?trace \<and>
           (\<forall>j. 1 \<le> j \<and> j < length ?trace \<longrightarrow>
              summary (data (?trace ! j)) = summary (data (?trace ! 1))) \<and>
           summary (data (network_run stub_env_done ''run-1'' (JString ''sbx'') ''build'' stub_sys)) =
             summary (data (?trace ! 1)))"
    using tr by simp
  with tr set t1
  have "\<not> truthy (summary (data (snd (hook_input stub_env_done ''run-1'' (JString ''sbx'') t0))))"
    and "summary (data (network_run stub_env_done ''run-1'' (JString ''sbx'') ''build'' stub_sys)) =
      Some ''<task_summary>done</task_summary>''"
    by (simp_all add: case_prod_beta)
  with run tr show ?thesis by simp
qed

end
